theory Spec2Isabelle
  imports Complex_Main "HOL-Library.Multiset" "HOL-Library.Sublist"
begin

section \<open>Python strings\<close>

text \<open>
  A Python \<open>str\<close> is modelled as a \<open>string\<close>, one \<open>char\<close> per character: the
  strings of the model are those of the characters U+0000 to U+00FF. On them \<open>lower\<close>
  and \<open>strip\<close> below do what \<open>str.lower()\<close> and \<open>str.strip()\<close> do, the letters and
  the white space beyond ASCII included.
\<close>

definition endswith :: "string \<Rightarrow> string \<Rightarrow> bool" where
  \<comment> \<open>\<open>w.endswith(s)\<close>\<close>
  "endswith w s = (length s \<le> length w \<and> drop (length w - length s) w = s)"

definition startswith :: "string \<Rightarrow> string \<Rightarrow> bool" where
  \<comment> \<open>\<open>w.startswith(s)\<close>\<close>
  "startswith w s = (take (length s) w = s)"

definition chop :: "nat \<Rightarrow> string \<Rightarrow> string" where
  \<comment> \<open>the slice \<open>w[:-k]\<close> for \<open>k > 0\<close>: empty when \<open>k \<ge> len(w)\<close>\<close>
  "chop k w = take (length w - k) w"

definition doubled :: "string \<Rightarrow> bool" where
  \<comment> \<open>\<open>len(base) >= 2 and base[-1] == base[-2]\<close>\<close>
  "doubled base = (length base \<ge> 2 \<and> base ! (length base - 1) = base ! (length base - 2))"

section \<open>The stemmer (brain.py, \<open>stem\<close>)\<close>

text \<open>
  \<open>stem\<close> is one chain of \<open>if ... return\<close> statements. The chain is cut in three
  at the \<open>ing\<close> rule: the rules tried before it (\<open>None\<close> when none of them returns),
  the \<open>ing\<close> rule itself, and the rules tried after it.
\<close>

definition stem_before_ing :: "string \<Rightarrow> string option" where
  "stem_before_ing word =
    (if endswith word ''ational'' then Some (chop 7 word @ ''ate'')
     else if endswith word ''ization'' then Some (chop 7 word @ ''ize'')
     else if endswith word ''iveness'' then Some (chop 7 word @ ''ive'')
     else if endswith word ''fulness'' then Some (chop 7 word @ ''ful'')
     else if endswith word ''ousness'' then Some (chop 7 word @ ''ous'')
     else if endswith word ''ement'' \<and> length word > 7 then Some (chop 5 word)
     else if endswith word ''ment'' \<and> length word > 6 then Some (chop 4 word)
     else if endswith word ''ation'' \<and> length word > 7 then Some (chop 5 word @ ''e'')
     else if endswith word ''ating'' then Some (chop 3 word @ ''e'')
     else if endswith word ''ling'' \<and> length word > 5 \<and> word ! (length word - 5) \<noteq> CHR ''l''
       then Some (chop 3 word @ ''e'')
     else if endswith word ''ying'' then Some (chop 4 word @ ''y'')
     else if endswith word ''ting'' \<and> length word > 5 \<and> \<not> endswith word ''sting''
             \<and> \<not> endswith (chop 3 word) ''t''
       then Some (chop 3 word)
     else if endswith word ''sses'' then Some (chop 2 word)
     else if endswith word ''ies'' \<and> length word > 4 then Some (chop 3 word @ ''y'')
     else if endswith word ''ness'' \<and> length word > 5 then Some (chop 4 word)
     else if endswith word ''less'' then Some (chop 4 word)
     else if endswith word ''able'' \<and> length word > 5 then Some (chop 4 word)
     else if endswith word ''ible'' \<and> length word > 5 then Some (chop 4 word)
     else if endswith word ''ally'' then Some (chop 4 word @ ''al'')
     else None)"

definition stem_ing :: "string \<Rightarrow> string option" where
  "stem_ing word =
    (if endswith word ''ing'' \<and> length word > 4 then
       (let base = chop 3 word in
        if doubled base then Some (chop 1 base)
        else if length base > 2 then Some base
        else None)
     else None)"

definition stem_after_ing :: "string \<Rightarrow> string" where
  "stem_after_ing word =
    (if endswith word ''ment'' \<and> length word > 5 then chop 4 word
     else if endswith word ''ful'' \<and> length word > 4 then chop 3 word
     else if endswith word ''ous'' \<and> length word > 4 then chop 3 word
     else if endswith word ''ive'' \<and> length word > 4 then chop 3 word
     else if endswith word ''ized'' then chop 4 word @ ''ize''
     else if endswith word ''ised'' then chop 4 word @ ''ise''
     else if endswith word ''tion'' then chop 4 word @ ''t''
     else if endswith word ''ed'' \<and> length word > 3 then
       (let base = chop 2 word in
        if endswith base ''i'' then chop 1 base @ ''y''
        else if doubled base then chop 1 base
        else base)
     else if endswith word ''er'' \<and> length word > 4 then chop 2 word
     else if endswith word ''ly'' \<and> length word > 4 then chop 2 word
     else if endswith word ''es'' \<and> length word > 3 then
       (if endswith word ''ches'' \<or> endswith word ''shes'' \<or> endswith word ''sses''
        then chop 2 word else chop 2 word)
     else if endswith word ''s'' \<and> \<not> endswith word ''ss'' \<and> length word > 3 then chop 1 word
     else word)"

definition stem :: "string \<Rightarrow> string" where
  "stem word =
    (if length word \<le> 3 then word
     else case stem_before_ing word of
       Some r \<Rightarrow> r
     | None \<Rightarrow> (case stem_ing word of Some r \<Rightarrow> r | None \<Rightarrow> stem_after_ing word))"

section \<open>The tokenizer (brain.py, \<open>tokenize\<close>)\<close>

definition STOPWORDS :: "string list" where
  "STOPWORDS =
    [''the'', ''a'', ''an'', ''is'', ''are'', ''was'', ''were'', ''be'', ''been'', ''being'',
     ''have'', ''has'', ''had'', ''do'', ''does'', ''did'', ''will'', ''would'', ''could'',
     ''should'', ''may'', ''might'', ''can'', ''shall'', ''to'', ''of'', ''in'', ''for'',
     ''on'', ''with'', ''at'', ''by'', ''from'', ''as'', ''into'', ''through'', ''during'',
     ''before'', ''after'', ''above'', ''below'', ''between'', ''and'', ''but'', ''or'',
     ''not'', ''no'', ''nor'', ''so'', ''yet'', ''both'', ''each'', ''this'', ''that'',
     ''these'', ''those'', ''it'', ''its'', ''they'', ''them'', ''their'', ''we'', ''our'',
     ''you'', ''your'', ''he'', ''she'', ''his'', ''her'', ''which'', ''what'', ''when'',
     ''where'', ''who'', ''whom'', ''how'', ''all'', ''any'', ''some'', ''none'', ''if'',
     ''then'', ''than'', ''too'', ''very'', ''just'', ''also'', ''about'', ''up'', ''out'']"

definition upper_chars :: string where
  \<comment> \<open>the characters below U+0100 that \<open>str.lower()\<close> changes: \<open>A\<close> to \<open>Z\<close> and
      U+00C0 to U+00DE without the multiplication sign U+00D7\<close>
  "upper_chars = ''ABCDEFGHIJKLMNOPQRSTUVWXYZ'' @
      [CHR 0xC0, CHR 0xC1, CHR 0xC2, CHR 0xC3, CHR 0xC4, CHR 0xC5, CHR 0xC6, CHR 0xC7,
       CHR 0xC8, CHR 0xC9, CHR 0xCA, CHR 0xCB, CHR 0xCC, CHR 0xCD, CHR 0xCE, CHR 0xCF,
       CHR 0xD0, CHR 0xD1, CHR 0xD2, CHR 0xD3, CHR 0xD4, CHR 0xD5, CHR 0xD6, CHR 0xD8,
       CHR 0xD9, CHR 0xDA, CHR 0xDB, CHR 0xDC, CHR 0xDD, CHR 0xDE]"

definition lower_chars :: string where
  \<comment> \<open>their lowercase forms, 32 code points further: \<open>a\<close> to \<open>z\<close> and U+00E0 to U+00FE
      without the division sign U+00F7\<close>
  "lower_chars = ''abcdefghijklmnopqrstuvwxyz'' @
      [CHR 0xE0, CHR 0xE1, CHR 0xE2, CHR 0xE3, CHR 0xE4, CHR 0xE5, CHR 0xE6, CHR 0xE7,
       CHR 0xE8, CHR 0xE9, CHR 0xEA, CHR 0xEB, CHR 0xEC, CHR 0xED, CHR 0xEE, CHR 0xEF,
       CHR 0xF0, CHR 0xF1, CHR 0xF2, CHR 0xF3, CHR 0xF4, CHR 0xF5, CHR 0xF6, CHR 0xF8,
       CHR 0xF9, CHR 0xFA, CHR 0xFB, CHR 0xFC, CHR 0xFD, CHR 0xFE]"

definition lower_char :: "char \<Rightarrow> char" where
  "lower_char c = (case map_of (zip upper_chars lower_chars) c of Some l \<Rightarrow> l | None \<Rightarrow> c)"

definition lower :: "string \<Rightarrow> string" where
  \<comment> \<open>\<open>s.lower()\<close>\<close>
  "lower s = map lower_char s"

definition is_alnum :: "char \<Rightarrow> bool" where
  \<comment> \<open>the character class \<open>[a-z0-9]\<close>\<close>
  "is_alnum c = (c \<in> set ''abcdefghijklmnopqrstuvwxyz0123456789'')"

definition is_word_char :: "char \<Rightarrow> bool" where
  \<comment> \<open>the character class \<open>[-a-z0-9]\<close>\<close>
  "is_word_char c = (c = CHR ''-'' \<or> is_alnum c)"

function findall_tokens :: "string \<Rightarrow> string list" where
  \<comment> \<open>\<open>re.findall(r"[a-z0-9][-a-z0-9]*", s)\<close>: leftmost, greedy, non-overlapping\<close>
  "findall_tokens [] = []"
| "findall_tokens (c # cs) =
    (if is_alnum c
     then (c # takeWhile is_word_char cs) # findall_tokens (dropWhile is_word_char cs)
     else findall_tokens cs)"
  by pat_completeness auto
termination
  by (relation "measure length") (auto simp: length_dropWhile_le less_Suc_eq_le)

fun split_on :: "char \<Rightarrow> string \<Rightarrow> string list" where
  \<comment> \<open>\<open>s.split(c)\<close> for a one-character separator; the result is never empty\<close>
  "split_on c [] = [[]]"
| "split_on c (x # xs) =
    (if x = c then [] # split_on c xs
     else (case split_on c xs of p # ps \<Rightarrow> (x # p) # ps | [] \<Rightarrow> [[x]]))"

fun join_sp :: "string list \<Rightarrow> string" where
  \<comment> \<open>\<open>" ".join(parts)\<close>\<close>
  "join_sp [] = []"
| "join_sp [p] = p"
| "join_sp (p # q # ps) = p @ '' '' @ join_sp (q # ps)"

definition expand_token :: "string \<Rightarrow> string list" where
  \<comment> \<open>the body of the loop over \<open>raw_tokens\<close>\<close>
  "expand_token t =
    (if CHR ''-'' \<in> set t then t # filter (\<lambda>part. part \<noteq> []) (split_on CHR ''-'' t) else [t])"

definition tokenize :: "string \<Rightarrow> string list" where
  "tokenize text =
    (let raw_tokens = findall_tokens (lower text);
         expanded = concat (map expand_token raw_tokens)
     in map stem (filter (\<lambda>t. t \<notin> set STOPWORDS \<and> length t > 1) expanded))"

section \<open>Entries and documents\<close>

text \<open>
  An entry is a Python \<open>dict\<close> from field names to strings, here an association
  list. Every read in the engine is \<open>entry.get(key, "")\<close>.
\<close>

type_synonym entry = "(string \<times> string) list"

definition entry_get :: "entry \<Rightarrow> string \<Rightarrow> string" where
  "entry_get entry key = (case map_of entry key of Some v \<Rightarrow> v | None \<Rightarrow> [])"

definition entry_to_corpus_doc :: "entry \<Rightarrow> string list" where
  "entry_to_corpus_doc entry =
    (let parts = replicate 5 (entry_get entry ''tags'')
           @ replicate 4 (entry_get entry ''id'')
           @ [entry_get entry ''summary'']
           @ [entry_get entry ''type'']
           @ [entry_get entry ''file'']
           @ [entry_get entry ''known_issues'']
     in tokenize (join_sp parts))"

section \<open>The BM25 index\<close>

text \<open>
  \<open>build_bm25_index\<close> imports the class \<open>BM25Okapi\<close> from the package
  \<open>rank_bm25\<close>, which is not part of the repository. The engine takes it as a
  parameter: a constructor from a tokenized corpus and the parameters \<open>k1\<close>, \<open>b\<close> to an
  index object, which is represented by its one method used here, \<open>get_scores\<close>.
  Both may raise. Python floats are modelled as real numbers.
\<close>

datatype pyerr = ZeroDivisionError | IndexError

type_synonym bm25 = "string list \<Rightarrow> pyerr + real list"

type_synonym bm25_class = "string list list \<Rightarrow> real \<Rightarrow> real \<Rightarrow> pyerr + bm25"

definition build_bm25_index :: "bm25_class \<Rightarrow> entry list \<Rightarrow> pyerr + bm25" where
  "build_bm25_index BM25Okapi entries =
    (let corpus = map entry_to_corpus_doc entries in BM25Okapi corpus 1.0 0.4)"

section \<open>Scoring (brain.py, \<open>score_entries_bm25\<close>)\<close>

subsection \<open>Stage 2: structural boosts\<close>

definition is_space :: "char \<Rightarrow> bool" where
  \<comment> \<open>the characters \<open>str.strip()\<close> removes, among the first 256 code points\<close>
  "is_space c =
    (c \<in> set [CHR 0x09, CHR 0x0A, CHR 0x0B, CHR 0x0C, CHR 0x0D, CHR 0x1C, CHR 0x1D, CHR 0x1E,
               CHR 0x1F, CHR 0x20, CHR 0x85, CHR 0xA0])"

definition strip :: "string \<Rightarrow> string" where
  \<comment> \<open>\<open>s.strip()\<close>\<close>
  "strip s = rev (dropWhile is_space (rev (dropWhile is_space s)))"

fun str_in :: "string \<Rightarrow> string \<Rightarrow> bool" where
  \<comment> \<open>\<open>a in b\<close> for two strings: \<open>a\<close> occurs in \<open>b\<close> as a substring\<close>
  "str_in a [] = (a = [])"
| "str_in a (c # cs) = (startswith (c # cs) a \<or> str_in a cs)"

definition entry_tags :: "entry \<Rightarrow> string list" where
  \<comment> \<open>\<open>[t.strip().lower() for t in entry.get("tags", "").split(",")]\<close>\<close>
  "entry_tags entry = map (\<lambda>t. lower (strip t)) (split_on CHR '','' (entry_get entry ''tags''))"

definition boost_term :: "entry \<Rightarrow> string \<Rightarrow> real \<Rightarrow> real" where
  \<comment> \<open>the body of the loop over \<open>query_terms\<close>\<close>
  "boost_term entry term score =
    (let term_lower = lower term;
         tags = entry_tags entry;
         score = (if term_lower \<in> set tags then score + 5.0 else score);
         score = (if str_in term_lower (lower (entry_get entry ''id'')) then score + 4.0 else score)
     in score)"

fun boost_terms :: "entry \<Rightarrow> string list \<Rightarrow> real \<Rightarrow> real" where
  "boost_terms entry [] score = score"
| "boost_terms entry (term # terms) score = boost_terms entry terms (boost_term entry term score)"

fun boost_loop :: "real list \<Rightarrow> string list \<Rightarrow> nat \<Rightarrow> entry list \<Rightarrow> pyerr + (real \<times> entry) list" where
  \<comment> \<open>\<open>for i, entry in enumerate(entries)\<close>, from index \<open>i\<close>; \<open>raw_scores[i]\<close> raises
      out of range\<close>
  "boost_loop raw_scores query_terms i [] = Inr []"
| "boost_loop raw_scores query_terms i (entry # entries) =
    (if i < length raw_scores then
       (case boost_loop raw_scores query_terms (Suc i) entries of
          Inl err \<Rightarrow> Inl err
        | Inr boosted \<Rightarrow> Inr ((boost_terms entry query_terms (raw_scores ! i), entry) # boosted))
     else Inl IndexError)"

subsection \<open>Stage 3: link propagation\<close>

type_synonym pool = "string \<rightharpoonup> real"

definition dict_get :: "pool \<Rightarrow> string \<Rightarrow> real \<Rightarrow> real" where
  \<comment> \<open>\<open>d.get(key, default)\<close>\<close>
  "dict_get d key dflt = (case d key of Some v \<Rightarrow> v | None \<Rightarrow> dflt)"

definition is_sep :: "char \<Rightarrow> bool" where
  \<comment> \<open>the character class \<open>[,;]\<close>\<close>
  "is_sep c = (c = CHR '','' \<or> c = CHR '';'')"

fun re_split :: "string \<Rightarrow> string list" where
  \<comment> \<open>\<open>re.split(r"[,;]+", s)\<close>: cut at every maximal run of separators\<close>
  "re_split [] = [[]]"
| "re_split (c # cs) =
    (if is_sep c then
       (if cs \<noteq> [] \<and> is_sep (hd cs) then re_split cs else [] # re_split cs)
     else (case re_split cs of p # ps \<Rightarrow> (c # p) # ps | [] \<Rightarrow> [[c]]))"

definition linked_ids :: "string \<Rightarrow> string list" where
  \<comment> \<open>\<open>[lid.strip() for lid in re.split(r"[,;]+", links_str) if lid.strip()]\<close>\<close>
  "linked_ids links_str = map strip (filter (\<lambda>lid. strip lid \<noteq> []) (re_split links_str))"

fun propagate_ids :: "real \<Rightarrow> string list \<Rightarrow> pool \<Rightarrow> pool" where
  \<comment> \<open>\<open>for lid in linked_ids\<close>\<close>
  "propagate_ids score [] link_boost = link_boost"
| "propagate_ids score (lid # lids) link_boost =
    (let propagated = score * 0.15
     in propagate_ids score lids (link_boost(lid \<mapsto> dict_get link_boost lid 0.0 + propagated)))"

definition propagate_entry :: "real \<times> entry \<Rightarrow> pool \<Rightarrow> pool" where
  \<comment> \<open>the body of the first loop over \<open>boosted\<close>\<close>
  "propagate_entry se link_boost =
    (let score = fst se; entry = snd se in
     if score \<le> 0 then link_boost
     else let links_str = entry_get entry ''links'' in
       if links_str = [] \<or> startswith links_str ''_'' then link_boost
       else propagate_ids score (linked_ids links_str) link_boost)"

fun propagate_all :: "(real \<times> entry) list \<Rightarrow> pool \<Rightarrow> pool" where
  "propagate_all [] link_boost = link_boost"
| "propagate_all (se # boosted) link_boost = propagate_all boosted (propagate_entry se link_boost)"

fun id_to_score_of :: "(real \<times> entry) list \<Rightarrow> pool \<Rightarrow> pool" where
  \<comment> \<open>\<open>{e.get("id", ""): s for s, e in boosted}\<close>: a later entry overwrites an earlier one\<close>
  "id_to_score_of [] d = d"
| "id_to_score_of (se # boosted) d = id_to_score_of boosted (d(entry_get (snd se) ''id'' \<mapsto> fst se))"

fun apply_link_boosts :: "pool \<Rightarrow> (real \<times> entry) list \<Rightarrow> (real \<times> entry) list" where
  \<comment> \<open>the second loop over \<open>boosted\<close>\<close>
  "apply_link_boosts link_boost [] = []"
| "apply_link_boosts link_boost (se # boosted) =
    (let score = fst se; entry = snd se;
         entry_id = entry_get entry ''id'';
         total = score + dict_get link_boost entry_id 0.0
     in if total > 0 then (total, entry) # apply_link_boosts link_boost boosted
        else apply_link_boosts link_boost boosted)"

definition sort_reverse :: "('a \<Rightarrow> real) \<Rightarrow> 'a list \<Rightarrow> 'a list" where
  \<comment> \<open>\<open>xs.sort(key=key, reverse=True)\<close>: Python reverses the list, sorts it with its
      stable ascending sort, and reverses the result\<close>
  "sort_reverse key xs = rev (sort_key key (rev xs))"

definition score_entries_bm25 ::
    "bm25_class \<Rightarrow> entry list \<Rightarrow> string list \<Rightarrow> pyerr + (real \<times> entry) list" where
  "score_entries_bm25 BM25Okapi entries query_terms =
    (case build_bm25_index BM25Okapi entries of
       Inl err \<Rightarrow> Inl err
     | Inr bm25 \<Rightarrow>
        let query_tokens = tokenize (join_sp query_terms) in
        if query_tokens = [] then Inr []
        else
          (case bm25 query_tokens of
             Inl err \<Rightarrow> Inl err
           | Inr raw_scores \<Rightarrow>
              (case boost_loop raw_scores query_terms 0 entries of
                 Inl err \<Rightarrow> Inl err
               | Inr boosted \<Rightarrow>
                  let id_to_score = id_to_score_of boosted Map.empty;
                      link_boost = propagate_all boosted Map.empty;
                      final = apply_link_boosts link_boost boosted
                  in Inr (sort_reverse fst final))))"

text \<open>
  Stage 1 on its own: the value of \<open>raw_scores\<close>, that is
  \<open>build_bm25_index(entries).get_scores(tokenize(" ".join(query_terms)))\<close>.
\<close>

definition raw_scores_of :: "bm25_class \<Rightarrow> entry list \<Rightarrow> string list \<Rightarrow> pyerr + real list" where
  "raw_scores_of BM25Okapi entries query_terms =
    (case build_bm25_index BM25Okapi entries of
       Inl err \<Rightarrow> Inl err
     | Inr bm25 \<Rightarrow> bm25 (tokenize (join_sp query_terms)))"

section \<open>The class \<open>BM25Okapi\<close> of the package \<open>rank_bm25\<close>\<close>

text \<open>
  The class that \<open>build_bm25_index\<close> imports is third-party code. This is a model
  of it after the package's source (rank_bm25 0.2.2, classes \<open>BM25\<close> and
  \<open>BM25Okapi\<close>), with floats as reals and its dictionaries as functions of the word:
  \<^item> \<open>_initialize\<close> counts, for every word, the documents that contain it, and sets
    \<open>avgdl = num_doc / corpus_size\<close>, which raises on an empty corpus;
  \<^item> \<open>_calc_idf\<close> sets \<open>idf = log(corpus_size - freq + 0.5) - log(freq + 0.5)\<close> for
    every word, \<open>average_idf = idf_sum / len(idf)\<close>, which raises when no document has a
    word, and replaces every negative idf by \<open>epsilon * average_idf\<close>;
  \<^item> \<open>get_scores\<close> adds, for every token \<open>q\<close> of the query in turn,
    \<open>(idf.get(q) or 0) * (q_freq * (k1 + 1) / (q_freq + k1 * (1 - b + b * doc_len / avgdl)))\<close>.
\<close>

record bm25_index =
  bm_k1 :: real
  bm_b :: real
  bm_epsilon :: real
  bm_corpus_size :: nat
  bm_avgdl :: real
  bm_docs :: "string list list"
  bm_idf :: "string \<rightharpoonup> real"

definition doc_count :: "string list list \<Rightarrow> string \<Rightarrow> nat" where
  \<comment> \<open>\<open>nd[word]\<close>: the number of documents with the word\<close>
  "doc_count corpus word = length (filter (\<lambda>document. word \<in> set document) corpus)"

definition idf_raw :: "string list list \<Rightarrow> string \<Rightarrow> real" where
  "idf_raw corpus word =
    ln (real (length corpus) - real (doc_count corpus word) + 0.5)
      - ln (real (doc_count corpus word) + 0.5)"

definition calc_idf :: "string list list \<Rightarrow> real \<Rightarrow> pyerr + (string \<rightharpoonup> real)" where
  "calc_idf corpus eps_param =
    (let words = remdups (concat corpus) in
     if words = [] then Inl ZeroDivisionError
     else
       let idf_sum = sum_list (map (idf_raw corpus) words);
           average_idf = idf_sum / real (length words);
           eps = eps_param * average_idf
       in Inr (\<lambda>word. if word \<in> set words
                       then Some (if idf_raw corpus word < 0 then eps else idf_raw corpus word)
                       else None))"

definition term_scores :: "bm25_index \<Rightarrow> string \<Rightarrow> real list" where
  \<comment> \<open>what one token of the query adds to the score of every document\<close>
  "term_scores ix q =
    map (\<lambda>document.
          let q_freq = real (count_list document q);
              doc_len = real (length document)
          in dict_get (bm_idf ix) q 0
               * (q_freq * (bm_k1 ix + 1)
                   / (q_freq + bm_k1 ix * (1 - bm_b ix + bm_b ix * doc_len / bm_avgdl ix))))
        (bm_docs ix)"

fun get_scores_loop :: "bm25_index \<Rightarrow> string list \<Rightarrow> real list \<Rightarrow> real list" where
  "get_scores_loop ix [] score = score"
| "get_scores_loop ix (q # query) score =
    get_scores_loop ix query (map2 (+) score (term_scores ix q))"

definition get_scores :: "bm25_index \<Rightarrow> string list \<Rightarrow> real list" where
  "get_scores ix query = get_scores_loop ix query (replicate (bm_corpus_size ix) 0)"

definition rank_bm25_BM25Okapi :: bm25_class where
  "rank_bm25_BM25Okapi corpus k1_param b_param =
    (if length corpus = 0 then Inl ZeroDivisionError
     else
       (case calc_idf corpus 0.25 of
          Inl err \<Rightarrow> Inl err
        | Inr idf_dict \<Rightarrow>
           Inr (\<lambda>query. Inr (get_scores
             \<lparr>bm_k1 = k1_param, bm_b = b_param, bm_epsilon = 0.25,
              bm_corpus_size = length corpus,
              bm_avgdl = real (sum_list (map length corpus)) / real (length corpus),
              bm_docs = corpus, bm_idf = idf_dict\<rparr> query))))"

section \<open>Closed forms\<close>

text \<open>
  What the loops of the engine compute, written without the loops. The theorems below
  relate each of them to the code.
\<close>

definition bonus :: "entry \<Rightarrow> string \<Rightarrow> real" where
  \<comment> \<open>the structural bonus one query term earns on one entry\<close>
  "bonus entry term =
    (if lower term \<in> set (entry_tags entry) then 5 else 0)
    + (if str_in (lower term) (lower (entry_get entry ''id'')) then 4 else 0)"

definition boosted_of :: "real list \<Rightarrow> string list \<Rightarrow> entry list \<Rightarrow> (real \<times> entry) list" where
  \<comment> \<open>the list \<open>boosted\<close>: one pair per entry, in corpus order\<close>
  "boosted_of raw_scores query_terms entries =
    map (\<lambda>(r, e). (r + (\<Sum>term\<leftarrow>query_terms. bonus e term), e)) (zip raw_scores entries)"

fun split_seps :: "string \<Rightarrow> string list" where
  \<comment> \<open>cut at every comma and every semicolon\<close>
  "split_seps [] = [[]]"
| "split_seps (c # cs) =
    (if is_sep c then [] # split_seps cs
     else (case split_seps cs of p # ps \<Rightarrow> (c # p) # ps | [] \<Rightarrow> [[c]]))"

definition link_targets :: "entry \<Rightarrow> string list" where
  \<comment> \<open>the ids a scoring entry propagates to\<close>
  "link_targets entry =
    (let links_str = entry_get entry ''links'' in
     if links_str = [] \<or> startswith links_str ''_'' then [] else linked_ids links_str)"

definition pool_of :: "(real \<times> entry) list \<Rightarrow> string \<Rightarrow> real" where
  \<comment> \<open>the propagation pool: what the entries of \<open>boosted\<close> send to the id \<open>lid\<close>\<close>
  "pool_of boosted lid =
    (\<Sum>se\<leftarrow>boosted.
       if 0 < fst se then 0.15 * fst se * real (count_list (link_targets (snd se)) lid) else 0)"

definition final_of :: "(real \<times> entry) list \<Rightarrow> (real \<times> entry) list" where
  \<comment> \<open>every entry with its boosted score plus the pool value of its id\<close>
  "final_of boosted =
    map (\<lambda>se. (fst se + pool_of boosted (entry_get (snd se) ''id''), snd se)) boosted"

definition okapi_idf :: "string list list \<Rightarrow> string \<Rightarrow> real" where
  \<comment> \<open>\<open>idf.get(t) or 0\<close> of the \<open>rank_bm25\<close> index over \<open>corpus\<close>\<close>
  "okapi_idf corpus t =
    (let words = remdups (concat corpus);
         n = real (doc_count corpus t);
         v = ln (real (length corpus) - n + 0.5) - ln (n + 0.5)
     in if t \<notin> set words then 0
        else if v < 0 then 0.25 * (sum_list (map (idf_raw corpus) words) / real (length words))
        else v)"

definition okapi_term :: "string list list \<Rightarrow> real \<Rightarrow> real \<Rightarrow> string \<Rightarrow> string list \<Rightarrow> real" where
  \<comment> \<open>what the token \<open>t\<close> contributes to the score of the document \<open>d\<close>\<close>
  "okapi_term corpus k b t d =
    (let tf = real (count_list d t);
         dl = real (length d);
         avg = real (sum_list (map length corpus)) / real (length corpus)
     in okapi_idf corpus t * (tf * (k + 1) / (tf + k * (1 - b + b * dl / avg))))"

text \<open>
  The scoring formula in the words of the specification (section 4.4): the logarithm has
  \<open>+ 1\<close> inside, a non-positive idf is floored at 0.25 times the mean of the positive idf
  values, and the sum runs over the distinct query terms.
\<close>

definition spec_idf_raw :: "string list list \<Rightarrow> string \<Rightarrow> real" where
  "spec_idf_raw corpus t =
    (let N = real (length corpus); n = real (doc_count corpus t)
     in ln ((N - n + 0.5) / (n + 0.5) + 1))"

definition spec_idf :: "string list list \<Rightarrow> string \<Rightarrow> real" where
  "spec_idf corpus t =
    (let positive = filter (\<lambda>v. 0 < v) (map (spec_idf_raw corpus) (remdups (concat corpus)));
         eps = 0.25 * (sum_list positive / real (length positive))
     in if spec_idf_raw corpus t \<le> 0 then eps else spec_idf_raw corpus t)"

definition spec_score :: "string list list \<Rightarrow> string list \<Rightarrow> string list \<Rightarrow> real" where
  "spec_score corpus query d =
    (let k = 1.0; b = 0.4;
         avg = real (sum_list (map length corpus)) / real (length corpus)
     in \<Sum>t\<leftarrow>remdups query.
          spec_idf corpus t
            * real (count_list d t) * (k + 1)
            / (real (count_list d t) + k * (1 - b + b * real (length d) / avg)))"

section \<open>An example corpus\<close>

text \<open>
  Four entries; two of them carry the same id, and the first links to \<open>B-2\<close> and to its
  own id.
\<close>

definition entry_a :: entry where
  "entry_a = [(''id'', ''A-1''), (''tags'', ''cache''), (''links'', ''B-2, A-1'')]"

definition entry_b :: entry where
  "entry_b = [(''id'', ''B-2''), (''tags'', ''disk'')]"

definition entry_a2 :: entry where
  "entry_a2 = [(''id'', ''A-1''), (''tags'', ''cache'')]"

definition entry_c :: entry where
  "entry_c = [(''id'', ''C-3''), (''tags'', ''tape'')]"

definition ex_corpus :: "entry list" where
  "ex_corpus = [entry_a, entry_b, entry_a2, entry_c]"

section \<open>Properties of the stemmer\<close>

lemmas stem_defs =
  stem_def stem_before_ing_def stem_ing_def stem_after_ing_def endswith_def chop_def doubled_def

lemma endswith_last:
  assumes "endswith w s" and "s \<noteq> []"
  shows "last w = last s"
proof -
  from assms have d: "drop (length w - length s) w = s"
    by (simp add: endswith_def)
  with assms(2) have "last (drop (length w - length s) w) = last w"
    by (intro last_drop) (cases "length w - length s < length w", auto)
  with d show ?thesis by simp
qed

lemma ing_not_other_suffix:
  assumes "endswith w ''ing''" and "s \<noteq> []" and "last s \<noteq> CHR ''g''"
  shows "\<not> endswith w s"
proof
  assume "endswith w s"
  then have "last w = last s" using assms(2) by (rule endswith_last)
  moreover from assms(1) have "last w = last ''ing''" by (rule endswith_last) simp
  ultimately show False using assms(3) by simp
qed

lemma stem_after_ing_unchanged:
  assumes "endswith w ''ing''"
  shows "stem_after_ing w = w"
proof -
  have "\<not> endswith w ''ment''" "\<not> endswith w ''ful''" "\<not> endswith w ''ous''"
    "\<not> endswith w ''ive''" "\<not> endswith w ''ized''" "\<not> endswith w ''ised''"
    "\<not> endswith w ''tion''" "\<not> endswith w ''ed''" "\<not> endswith w ''er''"
    "\<not> endswith w ''ly''" "\<not> endswith w ''es''" "\<not> endswith w ''s''"
    using assms by (simp_all add: ing_not_other_suffix)
  then show ?thesis by (simp add: stem_after_ing_def)
qed

text \<open>
  C3, as the code has it. For a word longer than 4 characters that ends in \<open>ing\<close>
  and that no earlier rule rewrites: when the base (the word without \<open>ing\<close>) ends in
  a doubled letter, \<open>stem\<close> returns the base without its last letter; otherwise, when
  the base has more than two letters, it returns the base; otherwise (a 5-letter word)
  the \<open>ing\<close> rule does not return, no later rule matches, and the word comes back
  unchanged.
\<close>

theorem stem_ing_rule:
  assumes "length w > 4" and "endswith w ''ing''" and "stem_before_ing w = None"
  shows "stem w =
    (if doubled (chop 3 w) then chop 1 (chop 3 w)
     else if length w > 5 then chop 3 w
     else w)"
proof -
  have len: "length (chop 3 w) = length w - 3" by (simp add: chop_def)
  show ?thesis
    using assms stem_after_ing_unchanged [OF assms(2)]
    by (auto simp: stem_def stem_ing_def Let_def len)
qed

theorem stem_ing_rule_witness:
  "length ''running'' > 4 \<and> endswith ''running'' ''ing'' \<and> stem_before_ing ''running'' = None
   \<and> stem ''running'' = ''run''
   \<and> length ''going'' > 4 \<and> endswith ''going'' ''ing'' \<and> stem_before_ing ''going'' = None
   \<and> stem ''going'' = ''going''"
proof -
  have r: "length ''running'' > 4" "endswith ''running'' ''ing''" "stem_before_ing ''running'' = None"
    by (simp_all add: stem_before_ing_def endswith_def chop_def)
  have g: "length ''going'' > 4" "endswith ''going'' ''ing''" "stem_before_ing ''going'' = None"
    by (simp_all add: stem_before_ing_def endswith_def chop_def)
  show ?thesis
    using r g stem_ing_rule [OF r] stem_ing_rule [OF g]
    by (simp add: chop_def doubled_def)
qed

text \<open>
  C3, as the claim states it, fails at \<open>going\<close>: the word is longer than 4, ends in
  \<open>ing\<close>, no earlier rule rewrites it, and \<open>stem\<close> returns it with the suffix still
  there instead of the 2-letter base \<open>go\<close>.
\<close>

theorem stem_going_counterexample:
  "length ''going'' > 4 \<and> endswith ''going'' ''ing'' \<and> stem_before_ing ''going'' = None
   \<and> stem ''going'' = ''going'' \<and> stem ''going'' \<noteq> chop 3 ''going''
   \<and> endswith (stem ''going'') ''ing''"
  by (simp add: stem_defs)

text \<open>
  C9: the fidelity vector of the stemmer, and words of at most 3 characters are
  returned unchanged.
\<close>

theorem stem_fidelity:
  "stem ''running'' = ''run'' \<and> stem ''searching'' = ''search'' \<and> stem ''applied'' = ''apply''
   \<and> stem ''stopped'' = ''stop'' \<and> (\<forall>w. length w \<le> 3 \<longrightarrow> stem w = w)"
  by (simp add: stem_defs)

theorem stem_fidelity_witness:
  "length ''cat'' \<le> 3 \<and> stem ''cat'' = ''cat''"
  using stem_fidelity by simp

section \<open>Evaluating the engine on the example corpus\<close>

lemma ex_fields:
  "entry_get entry_a ''id'' = ''A-1''" "entry_get entry_a ''tags'' = ''cache''"
  "entry_get entry_a ''links'' = ''B-2, A-1''"
  "entry_get entry_b ''id'' = ''B-2''" "entry_get entry_b ''tags'' = ''disk''"
  "entry_get entry_b ''links'' = []"
  "entry_get entry_a2 ''id'' = ''A-1''" "entry_get entry_a2 ''tags'' = ''cache''"
  "entry_get entry_a2 ''links'' = []"
  "entry_get entry_c ''id'' = ''C-3''" "entry_get entry_c ''tags'' = ''tape''"
  "entry_get entry_c ''links'' = []"
  by (simp_all add: entry_a_def entry_b_def entry_a2_def entry_c_def entry_get_def)

lemmas boost_eval = boost_term_def entry_tags_def lower_def lower_char_def upper_chars_def
  lower_chars_def strip_def is_space_def
  startswith_def Let_def

lemmas prop_eval = propagate_entry_def linked_ids_def dict_get_def strip_def is_space_def is_sep_def
  startswith_def Let_def

lemma ex_docs:
  "map entry_to_corpus_doc ex_corpus =
    [[''cache'', ''cache'', ''cache'', ''cache'', ''cache'', ''a-1'', ''a-1'', ''a-1'', ''a-1''],
     [''disk'', ''disk'', ''disk'', ''disk'', ''disk'', ''b-2'', ''b-2'', ''b-2'', ''b-2''],
     [''cache'', ''cache'', ''cache'', ''cache'', ''cache'', ''a-1'', ''a-1'', ''a-1'', ''a-1''],
     [''tape'', ''tape'', ''tape'', ''tape'', ''tape'', ''c-3'', ''c-3'', ''c-3'', ''c-3'']]"
  by code_simp

lemma ex_query: "tokenize (join_sp [''cache'']) = [''cache'']"
  by code_simp

section \<open>Stage 2: the structural booster\<close>

text \<open>
  \<open>lower_char\<close> by code points: the capitals \<open>A\<close> to \<open>Z\<close> (65 to 90) and U+00C0 to
  U+00DE (192 to 222) without U+00D7 (215) move up by 32, as \<open>str.lower()\<close> moves them;
  every other character below U+0100 is kept.
\<close>

lemma lower_char_code:
  "(of_char (lower_char c) :: nat) =
     (let n = of_char c in
      if (65 \<le> n \<and> n \<le> 90) \<or> (192 \<le> n \<and> n \<le> 222 \<and> n \<noteq> 215) then n + 32 else n)"
proof (cases c)
  case (Char b0 b1 b2 b3 b4 b5 b6 b7)
  show ?thesis
    unfolding Char
    by (cases b0; cases b1; cases b2; cases b3; cases b4; cases b5; cases b6; cases b7)
       (simp_all add: lower_char_def upper_chars_def lower_chars_def)
qed




lemma boost_term_bonus: "boost_term entry term score = score + bonus entry term"
  by (simp add: boost_term_def bonus_def Let_def)

lemma boost_terms_sum:
  "boost_terms entry terms score = score + (\<Sum>term\<leftarrow>terms. bonus entry term)"
  by (induction terms arbitrary: score) (simp_all add: boost_term_bonus)



lemma boost_loop_total:
  assumes "i + length entries \<le> length raw"
  shows "boost_loop raw terms i entries =
    Inr (map (\<lambda>(j, e). (boost_terms e terms (raw ! j), e)) (enumerate i entries))"
  using assms by (induction entries arbitrary: i) auto

lemma boost_loop_entries:
  "boost_loop raw terms i entries = Inr boosted \<Longrightarrow> map snd boosted = entries"
  by (induction entries arbitrary: i boosted) (auto split: if_splits sum.splits)

lemma boost_loop_boosted_of:
  assumes "length entries \<le> length raw"
  shows "boost_loop raw terms 0 entries = Inr (boosted_of raw terms entries)"
proof -
  have "map (\<lambda>(j, e). (boost_terms e terms (raw ! j), e)) (enumerate 0 entries)
      = boosted_of raw terms entries"
    using assms
    by (intro nth_equalityI) (simp_all add: boosted_of_def nth_enumerate_eq boost_terms_sum)
  with assms show ?thesis by (simp add: boost_loop_total)
qed

lemma ex_boosted:
  "boost_loop [0, 0, 0, 0] [''cache''] 0 ex_corpus
     = Inr [(5, entry_a), (0, entry_b), (5, entry_a2), (0, entry_c)]"
  by (simp add: ex_corpus_def ex_fields boost_eval)



section \<open>Stage 3: the link propagator\<close>

lemma dict_get_empty: "dict_get Map.empty key dflt = dflt"
  by (simp add: dict_get_def)

lemma propagate_ids_get:
  "dict_get (propagate_ids score lids link_boost) lid 0 =
     dict_get link_boost lid 0 + 0.15 * score * real (count_list lids lid)"
  by (induction lids arbitrary: link_boost) (auto simp: dict_get_def Let_def algebra_simps)

lemma propagate_ids_dom:
  "dom (propagate_ids score lids link_boost) = dom link_boost \<union> set lids"
  by (induction lids arbitrary: link_boost) (auto simp: Let_def)

lemma propagate_entry_get:
  "dict_get (propagate_entry se link_boost) lid 0 =
     dict_get link_boost lid 0
       + (if 0 < fst se then 0.15 * fst se * real (count_list (link_targets (snd se)) lid) else 0)"
  by (simp add: propagate_entry_def link_targets_def Let_def propagate_ids_get not_less)

lemma propagate_entry_dom:
  "dom (propagate_entry se link_boost) =
     dom link_boost \<union> (if 0 < fst se then set (link_targets (snd se)) else {})"
  by (simp add: propagate_entry_def link_targets_def Let_def propagate_ids_dom not_less)

lemma propagate_all_get:
  "dict_get (propagate_all boosted link_boost) lid 0 =
     dict_get link_boost lid 0
       + (\<Sum>se\<leftarrow>boosted.
            if 0 < fst se then 0.15 * fst se * real (count_list (link_targets (snd se)) lid) else 0)"
  by (induction boosted arbitrary: link_boost) (simp_all add: propagate_entry_get)

lemma propagate_all_pool: "dict_get (propagate_all boosted Map.empty) lid 0 = pool_of boosted lid"
  by (simp add: propagate_all_get pool_of_def dict_get_empty)

lemma apply_link_boosts_eq:
  "apply_link_boosts link_boost boosted =
     filter (\<lambda>te. 0 < fst te)
       (map (\<lambda>se. (fst se + dict_get link_boost (entry_get (snd se) ''id'') 0, snd se)) boosted)"
  by (induction boosted) (simp_all add: Let_def)

lemma apply_link_boosts_final:
  "apply_link_boosts (propagate_all boosted Map.empty) boosted
     = filter (\<lambda>te. 0 < fst te) (final_of boosted)"
  by (simp add: apply_link_boosts_eq final_of_def propagate_all_pool)

lemma apply_link_boosts_subseq:
  "subseq (map snd (apply_link_boosts link_boost boosted)) (map snd boosted)"
  by (induction boosted) (auto simp: Let_def)

lemma apply_link_boosts_positive:
  "te \<in> set (apply_link_boosts link_boost boosted) \<Longrightarrow> 0 < fst te"
  by (induction boosted) (auto simp: Let_def split: if_splits)

lemma apply_link_boosts_mset:
  "mset (map snd (apply_link_boosts link_boost boosted)) \<subseteq># mset (map snd boosted)"
proof -
  let ?Q = "\<lambda>se. 0 < fst se + dict_get link_boost (entry_get (snd se) ''id'') 0"
  have "map snd (apply_link_boosts link_boost boosted) = map snd (filter ?Q boosted)"
    by (induction boosted) (simp_all add: Let_def)
  then have "mset (map snd (apply_link_boosts link_boost boosted))
      = image_mset snd (filter_mset ?Q (mset boosted))"
    by simp
  also have "\<dots> \<subseteq># image_mset snd (mset boosted)"
    by (intro image_mset_subseteq_mono multiset_filter_subset)
  finally show ?thesis by simp
qed

lemma ex_final:
  "apply_link_boosts
     (propagate_all [(5, entry_a), (0, entry_b), (5, entry_a2), (0, entry_c)] Map.empty)
     [(5, entry_a), (0, entry_b), (5, entry_a2), (0, entry_c)]
   = [(23 / 4, entry_a), (3 / 4, entry_b), (23 / 4, entry_a2)]"
  by (simp add: ex_fields prop_eval)

subsection \<open>Parsing the links field\<close>

lemma strip_Nil: "strip [] = []"
  by (simp add: strip_def)

lemma re_split_hd_sep:
  "cs \<noteq> [] \<Longrightarrow> is_sep (hd cs) \<Longrightarrow> \<exists>ps. re_split cs = [] # ps"
  by (induction cs) auto

lemma re_split_split_seps_aux:
  "\<exists>p ps ps'. re_split s = p # ps \<and> split_seps s = p # ps'
     \<and> filter (\<lambda>piece. strip piece \<noteq> []) ps = filter (\<lambda>piece. strip piece \<noteq> []) ps'"
proof (induction s)
  case Nil
  show ?case by simp
next
  case (Cons c cs)
  then obtain p ps ps' where IH: "re_split cs = p # ps" "split_seps cs = p # ps'"
    "filter (\<lambda>piece. strip piece \<noteq> []) ps = filter (\<lambda>piece. strip piece \<noteq> []) ps'"
    by blast
  show ?case
  proof (cases "is_sep c \<and> cs \<noteq> [] \<and> is_sep (hd cs)")
    case True
    then obtain qs where "re_split cs = [] # qs" using re_split_hd_sep by blast
    with IH have "p = []" by simp
    with True IH show ?thesis by (simp add: strip_Nil)
  next
    case False
    with IH show ?thesis by auto
  qed
qed

lemma linked_ids_split_seps:
  "linked_ids s = map strip (filter (\<lambda>piece. strip piece \<noteq> []) (split_seps s))"
proof -
  obtain p ps ps' where "re_split s = p # ps" "split_seps s = p # ps'"
    "filter (\<lambda>piece. strip piece \<noteq> []) ps = filter (\<lambda>piece. strip piece \<noteq> []) ps'"
    using re_split_split_seps_aux by blast
  then show ?thesis by (simp add: linked_ids_def)
qed

text \<open>
  C4, as the code has it. An entry with a positive score adds exactly its link targets to
  the keys of the pool, and an entry with a non-positive score adds none. The targets
  of an entry are none when its links field is empty or starts with an underscore;
  otherwise the field is split at commas and semicolons, every piece is trimmed, the
  empty pieces are dropped and every piece left is a target, a piece with a leading
  underscore included.
\<close>

theorem link_targets_parsed:
  "dom (propagate_entry (score, entry) link_boost)
     = dom link_boost \<union> (if 0 < score then set (link_targets entry) else {})
   \<and> link_targets entry =
     (if entry_get entry ''links'' = [] \<or> startswith (entry_get entry ''links'') ''_'' then []
      else map strip (filter (\<lambda>piece. strip piece \<noteq> []) (split_seps (entry_get entry ''links''))))"
  by (simp add: propagate_entry_dom link_targets_def linked_ids_split_seps)

theorem link_targets_parsed_witness:
  "dom (propagate_entry (5, [(''id'', ''A-1''), (''links'', ''B-2; _x,,C-3 '')]) Map.empty)
     = {''B-2'', ''_x'', ''C-3''}
   \<and> dom (propagate_entry (5, [(''id'', ''A-1''), (''links'', ''_none yet_'')]) Map.empty) = {}"
  using link_targets_parsed [of 5 "[(''id'', ''A-1''), (''links'', ''B-2; _x,,C-3 '')]" Map.empty]
    link_targets_parsed [of 5 "[(''id'', ''A-1''), (''links'', ''_none yet_'')]" Map.empty]
  by (auto simp add: entry_get_def strip_def is_space_def is_sep_def startswith_def)

text \<open>
  C4, as the claim states it, fails on the links field \<open>B-2,_none\<close> of an entry with
  score 5: the field does not start with an underscore, so it is split, and \<open>_none\<close>
  is a propagation target that receives 0.15 * 5.
\<close>

theorem underscore_target_counterexample:
  "linked_ids ''B-2,_none'' = [''B-2'', ''_none'']
   \<and> propagate_entry (5, [(''id'', ''A-1''), (''links'', ''B-2,_none'')]) Map.empty ''_none''
       = Some (3 / 4)"
  by (simp add: prop_eval entry_get_def)

text \<open>
  C5: the pool value of an id is the sum, over the entries with a strictly positive
  boosted score, of 0.15 times that score for every occurrence of the id among the
  entry's link targets; it depends on the boosted scores only (one hop). The second
  loop then gives every entry of the corpus its boosted score plus the pool value of
  its id (0 when the id is not in the pool) and keeps the totals above zero.
\<close>

theorem link_propagation:
  "dict_get (propagate_all boosted Map.empty) lid 0 =
     (\<Sum>se\<leftarrow>boosted.
        if 0 < fst se then 0.15 * fst se * real (count_list (link_targets (snd se)) lid) else 0)
   \<and> apply_link_boosts (propagate_all boosted Map.empty) boosted =
     filter (\<lambda>te. 0 < fst te)
       (map (\<lambda>se. (fst se + dict_get (propagate_all boosted Map.empty) (entry_get (snd se) ''id'') 0,
                    snd se)) boosted)"
  by (simp add: propagate_all_get apply_link_boosts_eq dict_get_empty)

theorem link_propagation_witness:
  "dict_get (propagate_all [(5, entry_a), (0, entry_b), (5, entry_a2), (0, entry_c)] Map.empty) ''B-2'' 0
     = 0.15 * 5
   \<and> apply_link_boosts
       (propagate_all [(5, entry_a), (0, entry_b), (5, entry_a2), (0, entry_c)] Map.empty)
       [(5, entry_a), (0, entry_b), (5, entry_a2), (0, entry_c)]
     = [(5 + 0.15 * 5, entry_a), (0 + 0.15 * 5, entry_b), (5 + 0.15 * 5, entry_a2)]"
  using link_propagation [of "[(5, entry_a), (0, entry_b), (5, entry_a2), (0, entry_c)]" "''B-2''"]
  by (simp add: ex_fields prop_eval)

section \<open>Stage 1: the scores of the \<open>rank_bm25\<close> index\<close>

lemma term_scores_length: "length (term_scores ix q) = length (bm_docs ix)"
  by (simp add: term_scores_def)

lemma get_scores_loop_length:
  "length score = length (bm_docs ix) \<Longrightarrow> length (get_scores_loop ix query score) = length (bm_docs ix)"
  by (induction query arbitrary: score) (simp_all add: term_scores_length)

lemma get_scores_loop_nth:
  assumes "length score = length (bm_docs ix)" and "i < length (bm_docs ix)"
  shows "get_scores_loop ix query score ! i = score ! i + (\<Sum>q\<leftarrow>query. term_scores ix q ! i)"
  using assms
  by (induction query arbitrary: score) (simp_all add: term_scores_length add.assoc)

lemma calc_idf_get:
  assumes "concat corpus \<noteq> []"
  shows "\<exists>d. calc_idf corpus 0.25 = Inr d \<and> (\<forall>t. dict_get d t 0 = okapi_idf corpus t)"
  using assms
  by (auto simp: calc_idf_def okapi_idf_def idf_raw_def dict_get_def Let_def)

lemma rank_bm25_scores:
  assumes "corpus \<noteq> []" and "concat corpus \<noteq> []"
  shows "\<exists>bm25. rank_bm25_BM25Okapi corpus k b = Inr bm25
    \<and> (\<forall>query. bm25 query = Inr (map (\<lambda>d. \<Sum>q\<leftarrow>query. okapi_term corpus k b q d) corpus))"
proof -
  from assms(2) obtain d where d: "calc_idf corpus 0.25 = Inr d"
      "\<And>t. dict_get d t 0 = okapi_idf corpus t"
    using calc_idf_get by blast
  let ?ix = "\<lparr>bm_k1 = k, bm_b = b, bm_epsilon = 0.25, bm_corpus_size = length corpus,
      bm_avgdl = real (sum_list (map length corpus)) / real (length corpus),
      bm_docs = corpus, bm_idf = d\<rparr>"
  have ts: "term_scores ?ix q ! i = okapi_term corpus k b q (corpus ! i)"
    if "i < length corpus" for q i
    using that by (simp add: term_scores_def okapi_term_def d(2) Let_def)
  have "get_scores ?ix query = map (\<lambda>d. \<Sum>q\<leftarrow>query. okapi_term corpus k b q d) corpus" for query
  proof (intro nth_equalityI)
    show "length (get_scores ?ix query) = length (map (\<lambda>d. \<Sum>q\<leftarrow>query. okapi_term corpus k b q d) corpus)"
      by (simp add: get_scores_def get_scores_loop_length)
  next
    fix i assume "i < length (get_scores ?ix query)"
    then have i: "i < length corpus"
      by (simp add: get_scores_def get_scores_loop_length)
    have tsi: "\<And>q. term_scores ?ix q ! i = okapi_term corpus k b q (corpus ! i)"
      using i by (rule ts)
    have "get_scores ?ix query ! i = (\<Sum>q\<leftarrow>query. term_scores ?ix q ! i)"
      using i by (simp add: get_scores_def get_scores_loop_nth)
    also have "\<dots> = (\<Sum>q\<leftarrow>query. okapi_term corpus k b q (corpus ! i))"
      by (simp only: tsi)
    finally show "get_scores ?ix query ! i = map (\<lambda>d. \<Sum>q\<leftarrow>query. okapi_term corpus k b q d) corpus ! i"
      using i by simp
  qed
  with assms(1) d(1) show ?thesis
    by (simp add: rank_bm25_BM25Okapi_def)
qed

lemma ex_raw: "raw_scores_of rank_bm25_BM25Okapi ex_corpus [''cache''] = Inr [0, 0, 0, 0]"
proof -
  have ne: "map entry_to_corpus_doc ex_corpus \<noteq> []" "concat (map entry_to_corpus_doc ex_corpus) \<noteq> []"
    by (simp_all add: ex_docs)
  have "okapi_idf (map entry_to_corpus_doc ex_corpus) ''cache'' = 0"
    by (simp add: ex_docs okapi_idf_def doc_count_def)
  then have "okapi_term (map entry_to_corpus_doc ex_corpus) 1.0 0.4 ''cache'' d = 0" for d
    by (simp add: okapi_term_def Let_def)
  with rank_bm25_scores [OF ne, of "1.0" "0.4"] show ?thesis
    unfolding raw_scores_of_def build_bm25_index_def Let_def ex_query
    by (auto simp: ex_corpus_def)
qed

text \<open>
  On the empty corpus nothing but the index can fail: with a constructor that returns an
  index there, and an index that returns scores, the engine returns the empty list.
\<close>

lemma empty_corpus_if_index_built:
  assumes "B [] 1.0 0.4 = Inr bm25"
    and "tokenize (join_sp query_terms) = [] \<or> bm25 (tokenize (join_sp query_terms)) = Inr raw"
  shows "score_entries_bm25 B [] query_terms = Inr []"
  using assms
  by (auto simp: score_entries_bm25_def build_bm25_index_def sort_reverse_def Let_def)

text \<open>
  C1 fails on the code: \<open>score_entries_bm25\<close> builds the index before it looks at the
  query, and the constructor of \<open>BM25Okapi\<close> divides the total document length by the
  corpus size. On the empty corpus the engine raises \<open>ZeroDivisionError\<close>, whatever the
  query terms are.
\<close>

theorem empty_corpus_raises:
  "score_entries_bm25 rank_bm25_BM25Okapi [] query_terms = Inl ZeroDivisionError"
  by (simp add: score_entries_bm25_def build_bm25_index_def rank_bm25_BM25Okapi_def)

text \<open>
  C2, as the code has it. For a non-empty corpus whose documents have at least one
  token, the raw score of every document is the sum, over the tokens of the query with
  their multiplicity, of \<open>idf(t) * tf * (k1 + 1) / (tf + k1 * (1 - b + b * dl / avgdl))\<close>
  with \<open>k1 = 1.0\<close> and \<open>b = 0.4\<close>, where \<open>idf(t) = ln (N - n(t) + 0.5) - ln (n(t) + 0.5)\<close>,
  a negative idf is replaced by 0.25 times the mean idf of all the words of the corpus,
  and a token that is in no document contributes 0.
\<close>

theorem okapi_raw_scores:
  assumes "entries \<noteq> []" and "concat (map entry_to_corpus_doc entries) \<noteq> []"
  shows "raw_scores_of rank_bm25_BM25Okapi entries query_terms =
    Inr (map (\<lambda>d. \<Sum>t\<leftarrow>tokenize (join_sp query_terms).
                     okapi_term (map entry_to_corpus_doc entries) 1.0 0.4 t d)
             (map entry_to_corpus_doc entries))"
proof -
  from assms have "map entry_to_corpus_doc entries \<noteq> []" by simp
  from rank_bm25_scores [OF this assms(2), of "1.0" "0.4"]
  show ?thesis
    by (auto simp: raw_scores_of_def build_bm25_index_def Let_def)
qed

theorem okapi_raw_scores_witness:
  "ex_corpus \<noteq> [] \<and> concat (map entry_to_corpus_doc ex_corpus) \<noteq> []
   \<and> raw_scores_of rank_bm25_BM25Okapi ex_corpus [''disk'']
       = Inr [0, (ln (7 / 2) - ln (3 / 2)) * (5 / 3), 0, 0]"
proof -
  have h1: "ex_corpus \<noteq> []" by (simp add: ex_corpus_def)
  have h2: "concat (map entry_to_corpus_doc ex_corpus) \<noteq> []" by (simp add: ex_docs)
  have q: "tokenize (join_sp [''disk'']) = [''disk'']" by code_simp
  have i: "okapi_idf (map entry_to_corpus_doc ex_corpus) ''disk'' = ln (7 / 2) - ln (3 / 2)"
    by (simp add: ex_docs okapi_idf_def doc_count_def)
  from okapi_raw_scores [OF h1 h2, of "[''disk'']"] h1 h2 show ?thesis
    unfolding q by (simp add: ex_docs okapi_term_def i [unfolded ex_docs])
qed

text \<open>
  C2, as the claim states it, fails on the example corpus and the query \<open>cache\<close>. The
  word is in 2 of the 4 documents, so its idf in the index is \<open>ln 2.5 - ln 2.5 = 0\<close> and
  every raw score is 0, while the formula of the claim gives the two documents with the
  word the score \<open>ln 2 * 5 / 3\<close>.
\<close>

theorem spec_idf_counterexample:
  "raw_scores_of rank_bm25_BM25Okapi ex_corpus [''cache''] = Inr [0, 0, 0, 0]
   \<and> map (spec_score (map entry_to_corpus_doc ex_corpus) (tokenize (join_sp [''cache''])))
         (map entry_to_corpus_doc ex_corpus)
       = [ln 2 * (5 / 3), 0, ln 2 * (5 / 3), 0]
   \<and> ln 2 * (5 / 3) \<noteq> (0::real)"
proof -
  have r: "spec_idf_raw (map entry_to_corpus_doc ex_corpus) ''cache'' = ln 2"
    by (simp add: ex_docs spec_idf_raw_def doc_count_def)
  have "spec_idf (map entry_to_corpus_doc ex_corpus) ''cache'' = ln 2"
    unfolding spec_idf_def Let_def r by simp
  then show ?thesis
    unfolding ex_query by (simp add: ex_raw ex_docs spec_score_def)
qed

section \<open>The whole engine\<close>

lemma sort_reverse_sorted: "sorted_wrt (\<lambda>x y. key x \<ge> key y) (sort_reverse key xs)"
proof -
  have "sorted (map key (sort_key key (rev xs)))" by simp
  then have "sorted_wrt (\<lambda>x y. key x \<le> key y) (sort_key key (rev xs))"
    by (simp add: sorted_map)
  then show ?thesis
    by (simp add: sort_reverse_def sorted_wrt_rev)
qed

lemma sort_reverse_stable:
  "filter (\<lambda>x. key x = k) (sort_reverse key xs) = filter (\<lambda>x. key x = k) xs"
  by (simp add: sort_reverse_def rev_filter [symmetric] sort_key_stable)

lemma sort_reverse_mset: "mset (sort_reverse key xs) = mset xs"
  by (simp add: sort_reverse_def)

lemma score_entries_bm25_cases:
  assumes "score_entries_bm25 B entries query_terms = Inr results"
  obtains "results = []"
  | raw boosted where "boost_loop raw query_terms 0 entries = Inr boosted"
      and "results = sort_reverse fst (apply_link_boosts (propagate_all boosted Map.empty) boosted)"
  using assms
  by (auto simp: score_entries_bm25_def Let_def split: sum.splits if_splits)

lemma score_entries_bm25_stages:
  assumes "raw_scores_of B entries query_terms = Inr raw_scores"
    and "tokenize (join_sp query_terms) \<noteq> []"
    and "boost_loop raw_scores query_terms 0 entries = Inr boosted"
  shows "score_entries_bm25 B entries query_terms =
    Inr (sort_reverse fst (apply_link_boosts (propagate_all boosted Map.empty) boosted))"
  using assms
  by (auto simp: score_entries_bm25_def raw_scores_of_def Let_def split: sum.splits)

lemma ex_results:
  "score_entries_bm25 rank_bm25_BM25Okapi ex_corpus [''cache'']
     = Inr [(23 / 4, entry_a), (23 / 4, entry_a2), (3 / 4, entry_b)]"
proof -
  have "tokenize (join_sp [''cache'']) \<noteq> []" by (simp only: ex_query) simp
  from score_entries_bm25_stages [OF ex_raw this ex_boosted]
  show ?thesis unfolding ex_final by (simp add: sort_reverse_def)
qed

text \<open>
  C7: whenever the engine returns, the results are in descending order of final score,
  and the results of any one score are exactly those of the list built in corpus order
  (a list whose entries are a subsequence of the corpus), in the same order.
\<close>

theorem results_sorted_stable:
  assumes "score_entries_bm25 B entries query_terms = Inr results"
  shows "sorted_wrt (\<lambda>x y. fst x \<ge> fst y) results
    \<and> (\<exists>final. subseq (map snd final) entries
          \<and> (\<forall>k. filter (\<lambda>x. fst x = k) results = filter (\<lambda>x. fst x = k) final))"
  using assms
proof (cases rule: score_entries_bm25_cases)
  case 1
  then show ?thesis by (auto intro: exI [of _ "[]"])
next
  case (2 raw boosted)
  let ?final = "apply_link_boosts (propagate_all boosted Map.empty) boosted"
  from 2(1) have "map snd boosted = entries" by (rule boost_loop_entries)
  then have "subseq (map snd ?final) entries"
    using apply_link_boosts_subseq [of "propagate_all boosted Map.empty" boosted] by simp
  moreover have "\<forall>k. filter (\<lambda>x. fst x = k) results = filter (\<lambda>x. fst x = k) ?final"
    by (simp add: 2(2) sort_reverse_stable)
  moreover have "sorted_wrt (\<lambda>x y. fst x \<ge> fst y) results"
    by (simp add: 2(2) sort_reverse_sorted)
  ultimately show ?thesis by blast
qed

theorem results_sorted_stable_witness:
  "score_entries_bm25 rank_bm25_BM25Okapi ex_corpus [''cache'']
     = Inr [(23 / 4, entry_a), (23 / 4, entry_a2), (3 / 4, entry_b)]
   \<and> sorted_wrt (\<lambda>x y. fst x \<ge> fst y) [(23 / 4 :: real, entry_a), (23 / 4, entry_a2), (3 / 4, entry_b)]
   \<and> (\<exists>final. subseq (map snd final) ex_corpus
         \<and> (\<forall>k. filter (\<lambda>x. fst x = k) [(23 / 4 :: real, entry_a), (23 / 4, entry_a2), (3 / 4, entry_b)]
               = filter (\<lambda>x. fst x = k) final))"
  using ex_results results_sorted_stable [OF ex_results] by blast

text \<open>
  C8: whenever the engine returns, the entries of the results are a sub-multiset of the
  corpus (every entry of the input is returned at most as often as it occurs there, so
  the results are a subset of the input), and every returned score is strictly positive.
\<close>

theorem results_subset_positive:
  assumes "score_entries_bm25 B entries query_terms = Inr results"
  shows "mset (map snd results) \<subseteq># mset entries
    \<and> set (map snd results) \<subseteq> set entries
    \<and> (\<forall>r\<in>set results. 0 < fst r)"
  using assms
proof (cases rule: score_entries_bm25_cases)
  case 1
  then show ?thesis by simp
next
  case (2 raw boosted)
  let ?final = "apply_link_boosts (propagate_all boosted Map.empty) boosted"
  from 2(1) have e: "map snd boosted = entries" by (rule boost_loop_entries)
  have "mset (map snd ?final) \<subseteq># mset entries"
    using apply_link_boosts_mset [of "propagate_all boosted Map.empty" boosted] e by simp
  moreover have m: "mset results = mset ?final"
    by (simp add: 2(2) sort_reverse_mset)
  then have "mset (map snd results) = mset (map snd ?final)"
    by (metis mset_map)
  ultimately have sub: "mset (map snd results) \<subseteq># mset entries" by simp
  then have "set (map snd results) \<subseteq> set entries"
    by (metis set_mset_mono set_mset_mset)
  moreover have "\<forall>r\<in>set results. 0 < fst r"
    using m apply_link_boosts_positive by (metis mset_eq_setD)
  ultimately show ?thesis using sub by blast
qed

theorem results_subset_positive_witness:
  "score_entries_bm25 rank_bm25_BM25Okapi ex_corpus [''cache'']
     = Inr [(23 / 4, entry_a), (23 / 4, entry_a2), (3 / 4, entry_b)]
   \<and> mset (map snd [(23 / 4 :: real, entry_a), (23 / 4, entry_a2), (3 / 4, entry_b)]) \<subseteq># mset ex_corpus
   \<and> 0 < fst (23 / 4 :: real, entry_a) \<and> 0 < fst (23 / 4 :: real, entry_a2)
   \<and> 0 < fst (3 / 4 :: real, entry_b)"
  using ex_results results_subset_positive [OF ex_results] by simp

text \<open>
  C10: with no assumption on the ids of the corpus, when the index is built and returns
  a score for every entry, the engine returns, and its results are, up to the order, the
  pairs of \<open>final_of\<close> with a positive score: one candidate pair per entry of the
  corpus, each with the boosted score of that very entry plus the pool value of its id.
  The dictionary \<open>id_to_score\<close> has no part in it.
\<close>

theorem duplicate_ids_kept:
  assumes "build_bm25_index B entries = Inr bm25"
    and "tokenize (join_sp query_terms) \<noteq> []"
    and "bm25 (tokenize (join_sp query_terms)) = Inr raw_scores"
    and "length entries \<le> length raw_scores"
  shows "\<exists>results. score_entries_bm25 B entries query_terms = Inr results
    \<and> mset results = mset (filter (\<lambda>te. 0 < fst te) (final_of (boosted_of raw_scores query_terms entries)))
    \<and> map snd (final_of (boosted_of raw_scores query_terms entries)) = entries"
proof -
  have "map snd (final_of (boosted_of raw_scores query_terms entries)) = entries"
    using assms(4)
    by (intro nth_equalityI) (simp_all add: final_of_def boosted_of_def)
  moreover have "score_entries_bm25 B entries query_terms =
      Inr (sort_reverse fst (filter (\<lambda>te. 0 < fst te) (final_of (boosted_of raw_scores query_terms entries))))"
    using assms
    by (simp add: score_entries_bm25_def Let_def boost_loop_boosted_of apply_link_boosts_final)
  ultimately show ?thesis by (simp add: sort_reverse_mset)
qed

theorem duplicate_ids_kept_witness:
  "entry_get entry_a ''id'' = entry_get entry_a2 ''id''
   \<and> (\<exists>results. score_entries_bm25 rank_bm25_BM25Okapi ex_corpus [''cache''] = Inr results
         \<and> mset results = mset [(23 / 4, entry_a), (3 / 4, entry_b), (23 / 4, entry_a2)])"
proof -
  from ex_raw obtain bm25 where b: "build_bm25_index rank_bm25_BM25Okapi ex_corpus = Inr bm25"
    and r: "bm25 (tokenize (join_sp [''cache''])) = Inr [0, 0, 0, 0]"
    by (auto simp: raw_scores_of_def simp del: join_sp.simps split: sum.splits)
  have q: "tokenize (join_sp [''cache'']) \<noteq> []" by (simp only: ex_query) simp
  have l: "length ex_corpus \<le> length [0, 0, 0, 0 :: real]" by (simp add: ex_corpus_def)
  have "boosted_of [0, 0, 0, 0] [''cache''] ex_corpus
      = [(5, entry_a), (0, entry_b), (5, entry_a2), (0, entry_c)]"
    using boost_loop_boosted_of [OF l, of "[''cache'']"] ex_boosted by simp
  then have "filter (\<lambda>te. 0 < fst te) (final_of (boosted_of [0, 0, 0, 0] [''cache''] ex_corpus))
      = [(23 / 4, entry_a), (3 / 4, entry_b), (23 / 4, entry_a2)]"
    using apply_link_boosts_final [of "[(5, entry_a), (0, entry_b), (5, entry_a2), (0, entry_c)]"]
    by (simp only: ex_final)
  with duplicate_ids_kept [OF b q r l] show ?thesis
    by (auto simp add: ex_fields)
qed

end
